theory Spec2Isabelle
  imports Main "HOL-Library.Product_Lexorder"
begin

section \<open>Coordinates\<close>

text \<open>
  Modelled from the spec: the coordinate types and \<open>project_to\<close> (coordinates.h, point.h)
  are not among the sources. \<open>tripoint_abs_sm\<close> (submap, the chunk coordinate),
  \<open>tripoint_abs_omt\<close> (overmap terrain, the address of a quad of 2x2 submaps) and
  \<open>tripoint_abs_seg\<close> (segment, the directory) are integer triples; a quad address divides
  x and y of a chunk coordinate by 2, a segment divides those of a quad address by 32, z is
  unchanged, and the division rounds towards minus infinity. The integers are unbounded:
  no property below depends on overflow.
\<close>

type_synonym point = "int \<times> int"
type_synonym tripoint = "int \<times> int \<times> int"

definition project_to_omt :: "tripoint \<Rightarrow> tripoint" where
  "project_to_omt p = (case p of (x, y, z) \<Rightarrow> (x div 2, y div 2, z))"

definition project_to_sm :: "tripoint \<Rightarrow> tripoint" where
  "project_to_sm om = (case om of (x, y, z) \<Rightarrow> (2 * x, 2 * y, z))"

definition project_to_seg :: "tripoint \<Rightarrow> tripoint" where
  "project_to_seg om = (case om of (x, y, z) \<Rightarrow> (x div 32, y div 32, z))"

definition add_point :: "tripoint \<Rightarrow> point \<Rightarrow> tripoint" where
  "add_point p d = (case p of (x, y, z) \<Rightarrow> (x + fst d, y + snd d, z))"

definition point_zero :: point where "point_zero = (0, 0)"
definition point_south :: point where "point_south = (0, 1)"
definition point_east :: point where "point_east = (1, 0)"
definition point_south_east :: point where "point_south_east = (1, 1)"

section \<open>Paths\<close>

text \<open>\<open>string_format( "%d", i )\<close>: the decimal digits of an int, with a minus sign.\<close>

definition digit :: "nat \<Rightarrow> char" where
  "digit n = ''0123456789'' ! n"

function format_nat :: "nat \<Rightarrow> string" where
  "format_nat n = (if n < 10 then [digit n] else format_nat (n div 10) @ [digit (n mod 10)])"
  by pat_completeness auto
termination
  by (relation "measure id") auto

declare format_nat.simps [simp del]

definition format_d :: "int \<Rightarrow> string" where
  "format_d i = (if i < 0 then CHR ''-'' # format_nat (nat (- i)) else format_nat (nat i))"

text \<open>\<open>cata_path::operator/\<close>: a path is a string, joined with a slash.\<close>

definition path_join :: "string \<Rightarrow> string \<Rightarrow> string" where
  "path_join d n = d @ ''/'' @ n"

section \<open>JSON values, chunks, the world\<close>

text \<open>
  Modelled from the spec: the JSON reader and writer (json.h) are not among the sources.
  A region file is a JSON array of chunk records. A value is its tree, with whole numbers
  only, the members of an object in the order the reader iterates them; a file on disk is
  the tree it holds.
\<close>

datatype json =
    JNull
  | JBool bool
  | JNumber int
  | JString string
  | JArray "json list"
  | JObject "(string \<times> json) list"

text \<open>
  Modelled from the spec: \<open>submap\<close> (submap.h) is not among the sources. A chunk is
  opaque to the map buffer, which only asks it \<open>is_uniform()\<close> and \<open>reverted\<close>, hands it
  a writer (\<open>store\<close>) and hands it the members of its record one by one with the version
  (\<open>load\<close>). The model keeps the two flags, the members \<open>store\<close> emits, and the
  arguments of every \<open>load\<close> call the chunk has received, in order.
\<close>

record submap =
  is_uniform :: bool
  reverted :: bool
  payload :: "(string \<times> json) list"
  load_calls :: "(string \<times> json \<times> int) list"

definition new_submap :: submap where
  "new_submap = \<lparr> is_uniform = True, reverted = False, payload = [], load_calls = [] \<rparr>"

definition store :: "submap \<Rightarrow> (string \<times> json) list" where
  "store sm = payload sm"

definition load :: "submap \<Rightarrow> json \<Rightarrow> string \<Rightarrow> int \<Rightarrow> submap" where
  "load sm member name version = sm \<lparr> load_calls := load_calls sm @ [(name, member, version)] \<rparr>"

text \<open>The messages of \<open>debugmsg\<close>, with the coordinates they are formatted with.\<close>

datatype debug_message =
    Tried_to_remove_non_existing tripoint
  | Failed_to_load tripoint
  | Failed_to_read string
  | Did_not_contain_expected string tripoint string
  | Already_loaded tripoint

text \<open>
  \<open>std::map<tripoint_abs_sm, std::unique_ptr<submap>>\<close>: a list of pairs with at most one
  pair per key, kept in the order of the keys (triples compared x first; no property
  below depends on the order); a \<open>unique_ptr\<close> is an option, \<open>None\<close> the null pointer.
  The world is the cache together with what the code reaches through globals: the files
  and directories of the save, and the debug log.
\<close>

type_synonym submap_ptr = "submap option"
type_synonym submap_map = "(tripoint \<times> submap_ptr) list"

record world =
  submaps :: submap_map
  files :: "string \<rightharpoonup> json"
  dirs :: "string set"
  msgs :: "debug_message list"

text \<open>
  What the code asks of its collaborators: the save directory, the current format version,
  \<open>map::inbounds\<close> of the reality bubble, how a stream formats an int under the global
  locale (the legacy file name), the terrain of a quad and the uniform submap of a terrain
  if it has one, and whether \<open>write_to_file\<close> succeeds on a path.
\<close>

datatype write_outcome = WriteOk | OpenFails | CommitFails

record env =
  world_base_save_path :: string
  savegame_version :: int
  inbounds :: "tripoint \<Rightarrow> bool"
  locale_format :: "int \<Rightarrow> string"
  ter :: "tripoint \<Rightarrow> string"
  generate_uniform :: "string \<Rightarrow> submap option"
  write_result :: "string \<Rightarrow> write_outcome"

definition find_quad_path :: "string \<Rightarrow> tripoint \<Rightarrow> string" where
  "find_quad_path dirname om_addr =
     (case om_addr of (x, y, z) \<Rightarrow>
        path_join dirname (format_d x @ ''.'' @ format_d y @ ''.'' @ format_d z @ ''.map''))"

definition find_dirname :: "env \<Rightarrow> tripoint \<Rightarrow> string" where
  "find_dirname e om_addr =
     (case project_to_seg om_addr of (x, y, z) \<Rightarrow>
        path_join (path_join (world_base_save_path e) ''maps'')
          (format_d x @ ''.'' @ format_d y @ ''.'' @ format_d z))"

section \<open>The cache\<close>

definition count :: "submap_map \<Rightarrow> tripoint \<Rightarrow> nat" where
  "count m p = (case map_of m p of None \<Rightarrow> 0 | Some _ \<Rightarrow> 1)"

text \<open>\<open>operator[]\<close> as an rvalue: a key that is absent is inserted with a null pointer.\<close>

definition subscript :: "submap_map \<Rightarrow> tripoint \<Rightarrow> submap_ptr \<times> submap_map" where
  "subscript m p =
     (case map_of m p of
        Some v \<Rightarrow> (v, m)
      | None \<Rightarrow> (None, insort_key fst (p, None) m))"

text \<open>\<open>submaps[p] = v\<close>.\<close>

definition assign :: "submap_map \<Rightarrow> tripoint \<Rightarrow> submap_ptr \<Rightarrow> submap_map" where
  "assign m p v =
     (case map_of m p of
        Some _ \<Rightarrow> map (\<lambda>e. if fst e = p then (p, v) else e) m
      | None \<Rightarrow> insort_key fst (p, v) m)"


definition debugmsg :: "debug_message \<Rightarrow> world \<Rightarrow> world" where
  "debugmsg d st = st \<lparr> msgs := msgs st @ [d] \<rparr>"

text \<open>
  \<open>add_submap( p, std::unique_ptr<submap> & )\<close>: the result, the caller's pointer after
  the call (moved from, so null, when the chunk was taken) and the world.
\<close>

definition add_submap :: "tripoint \<Rightarrow> submap_ptr \<Rightarrow> world \<Rightarrow> bool \<times> submap_ptr \<times> world" where
  "add_submap p sm st =
     (if count (submaps st) p \<noteq> 0 then (False, sm, st)
      else (True, None, st \<lparr> submaps := assign (submaps st) p sm \<rparr>))"

text \<open>
  \<open>add_submap( p, submap * )\<close>: the temporary \<open>unique_ptr\<close> releases the chunk when the
  insertion was rejected; what it still holds at the end of the scope is destroyed. The
  second component is the chunk that is still the caller's after the call, the third
  says whether the chunk was destroyed.
\<close>

definition add_submap_raw :: "tripoint \<Rightarrow> submap_ptr \<Rightarrow> world \<Rightarrow> bool \<times> submap_ptr \<times> bool \<times> world" where
  "add_submap_raw p sm st =
     (case add_submap p sm st of (result, temp, st') \<Rightarrow>
        (let temp' = (if \<not> result then None else temp);
             destroyed = (temp' \<noteq> None)
         in (result, (if result \<or> destroyed then None else sm), destroyed, st')))"


section \<open>Saving a quad\<close>

text \<open>
  \<open>fs::exists\<close> and \<open>file_exist\<close>, \<open>fs::remove\<close> and \<open>assure_dir_exist\<close> on the files and
  directories of the world; the last two are taken to succeed.
\<close>

definition fs_exists :: "world \<Rightarrow> string \<Rightarrow> bool" where
  "fs_exists st path = (files st path \<noteq> None)"

definition fs_remove :: "string \<Rightarrow> world \<Rightarrow> world" where
  "fs_remove path st = st \<lparr> files := (files st)(path := None) \<rparr>"

definition assure_dir_exist :: "string \<Rightarrow> world \<Rightarrow> world" where
  "assure_dir_exist d st = st \<lparr> dirs := insert d (dirs st) \<rparr>"

text \<open>
  Modelled from the spec: \<open>write_to_file\<close> (cata_utility) is not among the sources. It
  runs the writer on a stream and commits what was written to the path. The writer of
  \<open>save_quad\<close> also appends to the eviction list and indexes the cache, so it is a
  function on that state which returns the text it wrote. Whether the write succeeds is
  the environment's: it can fail with an I/O error before the writer runs (the stream
  cannot be opened) or after (the text cannot be committed); a failed write leaves the
  files as they were and returns false.
\<close>

definition write_to_file ::
  "env \<Rightarrow> string \<Rightarrow> ('s \<times> world \<Rightarrow> json \<times> 's \<times> world) \<Rightarrow> 's \<times> world \<Rightarrow> bool \<times> 's \<times> world" where
  "write_to_file e path writer s =
     (case write_result e path of
        OpenFails \<Rightarrow> (False, s)
      | CommitFails \<Rightarrow> (False, snd (writer s))
      | WriteOk \<Rightarrow>
          (case writer s of (text, l, st) \<Rightarrow>
             (True, l, st \<lparr> files := (files st)(path \<mapsto> text) \<rparr>)))"

definition offsets :: "point list" where
  "offsets = [point_zero, point_south, point_east, point_south_east]"

definition submap_addrs_of :: "tripoint \<Rightarrow> tripoint list" where
  "submap_addrs_of om_addr = map (\<lambda>offset. add_point (project_to_sm om_addr) offset) offsets"

text \<open>
  The first loop of \<open>save_quad\<close>, over the four addresses: the state is
  \<open>(all_uniform, reverted_to_uniform)\<close> and the cache, which \<open>submaps[submap_addr]\<close>
  may extend.
\<close>

fun inspect_flags ::
  "bool \<Rightarrow> tripoint list \<Rightarrow> bool \<times> bool \<times> submap_map \<Rightarrow> bool \<times> bool \<times> submap_map" where
  "inspect_flags file_exists [] acc = acc"
| "inspect_flags file_exists (submap_addr # rest) (all_uniform, reverted_to_uniform, m) =
     (case subscript m submap_addr of (sm, m') \<Rightarrow>
        (case sm of
           None \<Rightarrow> inspect_flags file_exists rest (all_uniform, reverted_to_uniform, m')
         | Some s \<Rightarrow>
             if \<not> is_uniform s then inspect_flags file_exists rest (False, reverted_to_uniform, m')
             else if reverted s then inspect_flags file_exists rest (all_uniform, file_exists, m')
             else inspect_flags file_exists rest (all_uniform, reverted_to_uniform, m')))"

text \<open>The loop under \<open>all_uniform && delete_after_save\<close>.\<close>

fun queue_resident ::
  "tripoint list \<Rightarrow> tripoint list \<times> submap_map \<Rightarrow> tripoint list \<times> submap_map" where
  "queue_resident [] acc = acc"
| "queue_resident (submap_addr # rest) (submaps_to_delete, m) =
     (if count m submap_addr > 0 then
        (case subscript m submap_addr of (sm, m') \<Rightarrow>
           if sm \<noteq> None then queue_resident rest (submaps_to_delete @ [submap_addr], m')
           else queue_resident rest (submaps_to_delete, m'))
      else queue_resident rest (submaps_to_delete, m))"

text \<open>One record of the file, as the writer emits it.\<close>

definition submap_record :: "env \<Rightarrow> tripoint \<Rightarrow> submap \<Rightarrow> json" where
  "submap_record e submap_addr sm =
     (case submap_addr of (x, y, z) \<Rightarrow>
        JObject ((''version'', JNumber (savegame_version e))
               # (''coordinates'', JArray [JNumber x, JNumber y, JNumber z])
               # store sm))"

text \<open>The loop of the writer: the records written so far, the eviction list, the cache.\<close>

fun write_records ::
  "env \<Rightarrow> bool \<Rightarrow> tripoint list \<Rightarrow> json list \<times> tripoint list \<times> submap_map
     \<Rightarrow> json list \<times> tripoint list \<times> submap_map" where
  "write_records e delete_after_save [] acc = acc"
| "write_records e delete_after_save (submap_addr # rest) (out, submaps_to_delete, m) =
     (if count m submap_addr = 0 then
        write_records e delete_after_save rest (out, submaps_to_delete, m)
      else
        (case subscript m submap_addr of (sm, m') \<Rightarrow>
           (case sm of
              None \<Rightarrow> write_records e delete_after_save rest (out, submaps_to_delete, m')
            | Some s \<Rightarrow>
                write_records e delete_after_save rest
                  (out @ [submap_record e submap_addr s],
                   (if delete_after_save then submaps_to_delete @ [submap_addr]
                    else submaps_to_delete),
                   m'))))"

definition quad_writer ::
  "env \<Rightarrow> bool \<Rightarrow> tripoint list \<Rightarrow> tripoint list \<times> world \<Rightarrow> json \<times> tripoint list \<times> world" where
  "quad_writer e delete_after_save submap_addrs s =
     (case s of (submaps_to_delete, st) \<Rightarrow>
        (case write_records e delete_after_save submap_addrs ([], submaps_to_delete, submaps st) of
           (out, submaps_to_delete', m') \<Rightarrow>
             (JArray out, submaps_to_delete', st \<lparr> submaps := m' \<rparr>)))"

text \<open>
  \<open>save_quad\<close>: the eviction list is passed in and returned. The result of
  \<open>write_to_file\<close> is dropped, as in the source.
\<close>

definition save_quad ::
  "env \<Rightarrow> string \<Rightarrow> string \<Rightarrow> tripoint \<Rightarrow> tripoint list \<Rightarrow> bool \<Rightarrow> world
     \<Rightarrow> tripoint list \<times> world" where
  "save_quad e dirname filename om_addr submaps_to_delete delete_after_save st =
     (let submap_addrs = submap_addrs_of om_addr;
          file_exists = fs_exists st filename
      in case inspect_flags file_exists submap_addrs (True, False, submaps st) of
           (all_uniform, reverted_to_uniform, m1) \<Rightarrow>
             (case (if all_uniform \<and> delete_after_save
                    then queue_resident submap_addrs (submaps_to_delete, m1)
                    else (submaps_to_delete, m1)) of
                (submaps_to_delete1, m2) \<Rightarrow>
                  if all_uniform \<and> \<not> reverted_to_uniform
                  then (submaps_to_delete1, st \<lparr> submaps := m2 \<rparr>)
                  else
                    (case write_to_file e filename
                            (quad_writer e delete_after_save submap_addrs)
                            (submaps_to_delete1, assure_dir_exist dirname (st \<lparr> submaps := m2 \<rparr>)) of
                       (written, submaps_to_delete2, st3) \<Rightarrow>
                         if all_uniform \<and> reverted_to_uniform
                         then (submaps_to_delete2, fs_remove filename st3)
                         else (submaps_to_delete2, st3))))"

section \<open>Saving the cache\<close>

text \<open>
  \<open>save\<close> starts one task per quad with \<open>std::async\<close>, joins the tasks and then evicts.
  The tasks run concurrently, and how they interleave with each other and with the loop
  that starts them is outside the model, which therefore has no function \<open>save\<close>. It has
  the three sequential pieces of \<open>save\<close>: what the loop over the cache captures for the
  task of each quad (\<open>start_tasks\<close>), the body of one task (\<open>run_task\<close>), and what
  \<open>save\<close> does once every task has ended (\<open>finish_save\<close>). A task holds what the lambda
  captures.
\<close>

record quad_task =
  task_dirname :: string
  task_quad_path :: string
  task_om_addr :: tripoint
  task_delete_after_save :: bool
  task_inside_reality_bubble :: bool

text \<open>The loop over the elements of the cache; \<open>saved_submaps\<close> is the set of quads seen.\<close>

fun start_tasks :: "env \<Rightarrow> bool \<Rightarrow> tripoint list \<Rightarrow> tripoint list \<Rightarrow> quad_task list" where
  "start_tasks e delete_after_save [] saved_submaps = []"
| "start_tasks e delete_after_save (elem # rest) saved_submaps =
     (let om_addr = project_to_omt elem
      in if om_addr \<in> set saved_submaps then start_tasks e delete_after_save rest saved_submaps
         else
           (let dirname = find_dirname e om_addr;
                quad_path = find_quad_path dirname om_addr;
                inside_reality_bubble = inbounds e om_addr
            in \<lparr> task_dirname = dirname, task_quad_path = quad_path, task_om_addr = om_addr,
                 task_delete_after_save = delete_after_save,
                 task_inside_reality_bubble = inside_reality_bubble \<rparr>
               # start_tasks e delete_after_save rest (om_addr # saved_submaps)))"

text \<open>The body of a task: \<open>save_quad\<close> on a local list, spliced onto the shared one.\<close>

definition run_task :: "env \<Rightarrow> quad_task \<Rightarrow> tripoint list \<times> world \<Rightarrow> tripoint list \<times> world" where
  "run_task e t s =
     (case s of (submaps_to_delete, st) \<Rightarrow>
        (case save_quad e (task_dirname t) (task_quad_path t) (task_om_addr t) []
                (task_delete_after_save t \<or> \<not> task_inside_reality_bubble t) st of
           (local_submaps_to_delete, st') \<Rightarrow>
             (submaps_to_delete @ local_submaps_to_delete, st')))"







section \<open>Loading a quad\<close>

text \<open>
  Modelled from the spec: the accessors of the JSON reader (json.h) are not among the
  sources. They raise \<open>JsonError\<close> where a value has not the type asked for or an array
  has no next element; the exceptions are values here.
\<close>

datatype json_error = Expected_array | Expected_object | Expected_int | No_more_elements | Missing_member

definition has_int :: "(string \<times> json) list \<Rightarrow> string \<Rightarrow> bool" where
  "has_int obj name = (case map_of obj name of Some (JNumber n) \<Rightarrow> True | _ \<Rightarrow> False)"

definition get_int :: "(string \<times> json) list \<Rightarrow> string \<Rightarrow> json_error + int" where
  "get_int obj name =
     (case map_of obj name of
        None \<Rightarrow> Inl Missing_member
      | Some (JNumber n) \<Rightarrow> Inr n
      | Some _ \<Rightarrow> Inl Expected_int)"

definition next_int :: "json list \<Rightarrow> json_error + int \<times> json list" where
  "next_int xs =
     (case xs of
        [] \<Rightarrow> Inl No_more_elements
      | JNumber n # rest \<Rightarrow> Inr (n, rest)
      | _ # rest \<Rightarrow> Inl Expected_int)"

text \<open>
  \<open>JsonArray coords_array = submap_member; tripoint_abs_sm loc{ next_int(), next_int(),
  next_int() }\<close>: the three calls run from left to right.
\<close>

definition read_coordinates :: "json \<Rightarrow> json_error + tripoint" where
  "read_coordinates submap_member =
     (case submap_member of
        JArray coords_array \<Rightarrow>
          (case next_int coords_array of
             Inl err \<Rightarrow> Inl err
           | Inr (x, r1) \<Rightarrow>
               (case next_int r1 of
                  Inl err \<Rightarrow> Inl err
                | Inr (y, r2) \<Rightarrow>
                    (case next_int r2 of
                       Inl err \<Rightarrow> Inl err
                     | Inr (z, r3) \<Rightarrow> Inr (x, y, z))))
      | _ \<Rightarrow> Inl Expected_array)"

text \<open>\<open>int version = 0; if( has_int( "version" ) ) version = get_int( "version" )\<close>.\<close>

definition read_version :: "(string \<times> json) list \<Rightarrow> json_error + int" where
  "read_version submap_json =
     (if has_int submap_json ''version'' then get_int submap_json ''version'' else Inr 0)"

text \<open>The loop over the members of one record: the chunk and \<open>submap_coordinates\<close>.\<close>

fun load_members ::
  "int \<Rightarrow> (string \<times> json) list \<Rightarrow> submap \<times> tripoint \<Rightarrow> json_error + submap \<times> tripoint" where
  "load_members version [] acc = Inr acc"
| "load_members version ((submap_member_name, submap_member) # rest) (sm, submap_coordinates) =
     (if submap_member_name = ''coordinates'' then
        (case read_coordinates submap_member of
           Inl err \<Rightarrow> Inl err
         | Inr loc \<Rightarrow> load_members version rest (sm, loc))
      else load_members version rest (load sm submap_member submap_member_name version, submap_coordinates))"

text \<open>
  The body of the loop of \<open>deserialize\<close> up to the insertion: a fresh chunk, the default
  coordinate (a default \<open>tripoint\<close> is zero), the version, then the members.
\<close>

definition deserialize_submap :: "json \<Rightarrow> json_error + tripoint \<times> submap" where
  "deserialize_submap j =
     (case j of
        JObject submap_json \<Rightarrow>
          (case read_version submap_json of
             Inl err \<Rightarrow> Inl err
           | Inr version \<Rightarrow>
               (case load_members version submap_json (new_submap, (0, 0, 0)) of
                  Inl err \<Rightarrow> Inl err
                | Inr (sm, submap_coordinates) \<Rightarrow> Inr (submap_coordinates, sm)))
      | _ \<Rightarrow> Inl Expected_object)"

text \<open>
  \<open>deserialize\<close>: an exception leaves the loop with the chunks of the earlier records in
  the cache.
\<close>

fun deserialize :: "json list \<Rightarrow> world \<Rightarrow> json_error option \<times> world" where
  "deserialize [] st = (None, st)"
| "deserialize (submap_json # rest) st =
     (case deserialize_submap submap_json of
        Inl err \<Rightarrow> (Some err, st)
      | Inr (submap_coordinates, sm) \<Rightarrow>
          (case add_submap submap_coordinates (Some sm) st of
             (added, sm', st') \<Rightarrow>
               deserialize rest
                 (if \<not> added then debugmsg (Already_loaded submap_coordinates) st' else st')))"

text \<open>The reader handed to \<open>read_from_file_optional_json\<close>: the value must be an array.\<close>

definition deserialize_value :: "json \<Rightarrow> world \<Rightarrow> json_error option \<times> world" where
  "deserialize_value jsin st =
     (case jsin of JArray ja \<Rightarrow> deserialize ja st | _ \<Rightarrow> (Some Expected_array, st))"

text \<open>
  Modelled from the spec: \<open>read_from_file_optional_json\<close> (cata_utility) is not among the
  sources. A path with no file is "no data"; a failure of the reader is caught at the
  load boundary, logged with the path, and treated like not-found.
\<close>

definition read_from_file_optional_json ::
  "string \<Rightarrow> (json \<Rightarrow> world \<Rightarrow> json_error option \<times> world) \<Rightarrow> world \<Rightarrow> bool \<times> world" where
  "read_from_file_optional_json path reader st =
     (case files st path of
        None \<Rightarrow> (False, st)
      | Some jsin \<Rightarrow>
          (case reader jsin st of
             (None, st') \<Rightarrow> (True, st')
           | (Some err, st') \<Rightarrow> (False, debugmsg (Failed_to_read path) st')))"

text \<open>
  Modelled from the spec: \<open>generate_uniform_omt\<close> is not among the sources. Every
  coordinate of the quad still absent from the cache gets a fresh uniform chunk when the
  terrain of the quad is uniform.
\<close>

definition generate_uniform_omt :: "env \<Rightarrow> tripoint \<Rightarrow> string \<Rightarrow> world \<Rightarrow> world" where
  "generate_uniform_omt e p oid st =
     foldl (\<lambda>s offset.
              (let pos = add_point p offset
               in if count (submaps s) pos = 0 then
                    (case generate_uniform e oid of
                       None \<Rightarrow> s
                     | Some sm \<Rightarrow> snd (snd (add_submap pos (Some sm) s)))
                  else s))
       st offsets"

text \<open>The file name of old saves: the three numbers as a stream formats them.\<close>

definition legacy_quad_path :: "env \<Rightarrow> string \<Rightarrow> tripoint \<Rightarrow> string" where
  "legacy_quad_path e dirname om_addr =
     (case om_addr of (x, y, z) \<Rightarrow>
        path_join dirname
          (locale_format e x @ ''.'' @ locale_format e y @ ''.'' @ locale_format e z @ ''.map''))"

text \<open>
  The head of \<open>unserialize_submaps\<close>: the path of the quad, or the legacy path when
  there is no file at the first and there is one at the second.
\<close>

definition resolve_quad_path :: "env \<Rightarrow> world \<Rightarrow> tripoint \<Rightarrow> string" where
  "resolve_quad_path e st om_addr =
     (let dirname = find_dirname e om_addr;
          quad_path = find_quad_path dirname om_addr
      in if \<not> fs_exists st quad_path then
           (let legacy = legacy_quad_path e dirname om_addr
            in if fs_exists st legacy then legacy else quad_path)
         else quad_path)"

text \<open>\<open>unserialize_submaps\<close>: the pointer returned (null is \<open>None\<close>) and the world.\<close>

definition unserialize_submaps :: "env \<Rightarrow> tripoint \<Rightarrow> world \<Rightarrow> submap_ptr \<times> world" where
  "unserialize_submaps e p st =
     (let om_addr = project_to_omt p;
          quad_path = resolve_quad_path e st om_addr
      in case read_from_file_optional_json quad_path deserialize_value st of
           (False, st1) \<Rightarrow> (None, st1)
         | (True, st1) \<Rightarrow>
             (let oid = ter e om_addr;
                  st2 = generate_uniform_omt e (project_to_sm om_addr) oid st1
              in if count (submaps st2) p = 0
                 then (None, debugmsg (Did_not_contain_expected quad_path p oid) st2)
                 else (case subscript (submaps st2) p of (sm, m') \<Rightarrow> (sm, st2 \<lparr> submaps := m' \<rparr>))))"

text \<open>
  \<open>lookup_submap\<close> and \<open>submap_exists\<close>. Their \<open>catch\<close> has nothing to catch here: the
  exceptions of the reader end in \<open>read_from_file_optional_json\<close>.
\<close>

definition lookup_submap :: "env \<Rightarrow> tripoint \<Rightarrow> world \<Rightarrow> submap_ptr \<times> world" where
  "lookup_submap e p st =
     (case map_of (submaps st) p of
        None \<Rightarrow> unserialize_submaps e p st
      | Some sm \<Rightarrow> (sm, st))"

definition submap_exists :: "env \<Rightarrow> tripoint \<Rightarrow> world \<Rightarrow> bool \<times> world" where
  "submap_exists e p st =
     (case map_of (submaps st) p of
        None \<Rightarrow> (case unserialize_submaps e p st of (sm, st') \<Rightarrow> (sm \<noteq> None, st'))
      | Some sm \<Rightarrow> (True, st))"

section \<open>Notions used in the statements\<close>

text \<open>The chunk the cache holds at a coordinate: none when the key is absent or its pointer null.\<close>

definition chunk_at :: "submap_map \<Rightarrow> tripoint \<Rightarrow> submap option" where
  "chunk_at m a = (case map_of m a of None \<Rightarrow> None | Some sm \<Rightarrow> sm)"

text \<open>The cache after \<open>operator[]\<close> has been applied to each address of a list.\<close>

definition touch_all :: "submap_map \<Rightarrow> tripoint list \<Rightarrow> submap_map" where
  "touch_all m as = foldl (\<lambda>m a. snd (subscript m a)) m as"

text \<open>The coordinates of a quad that hold a chunk, in slot order, and the flags of the quad.\<close>

definition resident_addrs :: "submap_map \<Rightarrow> tripoint \<Rightarrow> tripoint list" where
  "resident_addrs m om_addr = filter (\<lambda>a. chunk_at m a \<noteq> None) (submap_addrs_of om_addr)"

definition quad_all_uniform :: "submap_map \<Rightarrow> tripoint \<Rightarrow> bool" where
  "quad_all_uniform m om_addr =
     (\<forall>a\<in>set (submap_addrs_of om_addr). \<forall>s. chunk_at m a = Some s \<longrightarrow> is_uniform s)"

definition quad_reverted :: "submap_map \<Rightarrow> tripoint \<Rightarrow> bool" where
  "quad_reverted m om_addr =
     (\<exists>a\<in>set (submap_addrs_of om_addr). \<exists>s. chunk_at m a = Some s \<and> is_uniform s \<and> reverted s)"

definition quad_records :: "env \<Rightarrow> submap_map \<Rightarrow> tripoint \<Rightarrow> json list" where
  "quad_records e m om_addr =
     map (\<lambda>a. submap_record e a (the (chunk_at m a))) (resident_addrs m om_addr)"

section \<open>Example worlds\<close>

definition uniform_chunk :: submap where
  "uniform_chunk = \<lparr> is_uniform = True, reverted = False, payload = [], load_calls = [] \<rparr>"

definition reverted_chunk :: submap where
  "reverted_chunk = \<lparr> is_uniform = True, reverted = True, payload = [], load_calls = [] \<rparr>"

definition rock_chunk :: submap where
  "rock_chunk = \<lparr> is_uniform = False, reverted = False,
                  payload = [(''terrain'', JString ''t_rock'')], load_calls = [] \<rparr>"

definition example_env :: env where
  "example_env = \<lparr> world_base_save_path = ''save'', savegame_version = 33,
     inbounds = (\<lambda>om. True), locale_format = format_d, ter = (\<lambda>om. ''field''),
     generate_uniform = (\<lambda>oid. None), write_result = (\<lambda>path. WriteOk) \<rparr>"

definition tombstone_world :: world where
  "tombstone_world = \<lparr> submaps = [((0, 0, 0), Some reverted_chunk), ((0, 1, 0), Some uniform_chunk),
                                  ((1, 0, 0), Some uniform_chunk), ((1, 1, 0), Some uniform_chunk)],
       files = [''save/maps/0.0.0/0.0.0.map'' \<mapsto> JArray []], dirs = {}, msgs = [] \<rparr>"

definition lone_uniform_world :: world where
  "lone_uniform_world = \<lparr> submaps = [((0, 0, 0), Some uniform_chunk)],
       files = Map.empty, dirs = {}, msgs = [] \<rparr>"

text \<open>The cache of the world above after \<open>save_quad\<close> on its quad.\<close>

definition lone_uniform_world_saved :: world where
  "lone_uniform_world_saved = \<lparr> submaps = [((0, 0, 0), Some uniform_chunk), ((0, 1, 0), None),
                                           ((1, 0, 0), None), ((1, 1, 0), None)],
       files = Map.empty, dirs = {}, msgs = [] \<rparr>"

text \<open>A record whose version comes last, and the chunk loaded from it.\<close>

definition example_record :: "(string \<times> json) list" where
  "example_record = [(''terrain'', JString ''t_dirt''),
                     (''coordinates'', JArray [JNumber 1, JNumber 2, JNumber 3]),
                     (''version'', JNumber 7)]"

definition example_loaded :: submap where
  "example_loaded = new_submap \<lparr> load_calls :=
      [(''terrain'', JString ''t_dirt'', 7), (''version'', JNumber 7, 7)] \<rparr>"

text \<open>A record with no version.\<close>

definition unversioned_record :: "(string \<times> json) list" where
  "unversioned_record = [(''coordinates'', JArray [JNumber 4, JNumber 5, JNumber 0]),
                         (''terrain'', JString ''t_dirt'')]"

text \<open>A world with one file, of one record at the origin, and the chunk loaded from it.\<close>

definition saved_world :: world where
  "saved_world = \<lparr> submaps = [],
       files = [''save/maps/0.0.0/0.0.0.map'' \<mapsto>
                  JArray [JObject [(''version'', JNumber 33),
                                   (''coordinates'', JArray [JNumber 0, JNumber 0, JNumber 0]),
                                   (''terrain'', JString ''t_rock'')]]],
       dirs = {}, msgs = [] \<rparr>"

definition loaded_chunk :: submap where
  "loaded_chunk = new_submap \<lparr> load_calls :=
      [(''version'', JNumber 33, 33), (''terrain'', JString ''t_rock'', 33)] \<rparr>"

text \<open>A locale that groups thousands, and a world whose only file has the legacy name.\<close>

definition legacy_env :: env where
  "legacy_env = example_env \<lparr> locale_format := (\<lambda>i. if i = 1234 then ''1,234'' else format_d i) \<rparr>"

definition legacy_world :: world where
  "legacy_world = \<lparr> submaps = [],
       files = [''save/maps/38.0.0/1,234.0.0.map'' \<mapsto>
                  JArray [JObject [(''version'', JNumber 33),
                                   (''coordinates'', JArray [JNumber 2468, JNumber 1, JNumber 0]),
                                   (''terrain'', JString ''t_rock'')]]],
       dirs = {}, msgs = [] \<rparr>"

text \<open>A bubble of one quad, and a cache with a chunk inside it and a chunk outside.\<close>

definition bubble_env :: env where
  "bubble_env = example_env \<lparr> inbounds := (\<lambda>om. om = (0, 0, 0)) \<rparr>"

definition two_quads_world :: world where
  "two_quads_world = \<lparr> submaps = [((0, 0, 0), Some rock_chunk), ((5, 5, 0), Some rock_chunk)],
       files = Map.empty, dirs = {}, msgs = [] \<rparr>"

definition outside_task :: quad_task where
  "outside_task = \<lparr> task_dirname = find_dirname bubble_env (2, 2, 0),
       task_quad_path = find_quad_path (find_dirname bubble_env (2, 2, 0)) (2, 2, 0),
       task_om_addr = (2, 2, 0), task_delete_after_save = False,
       task_inside_reality_bubble = False \<rparr>"








section \<open>Properties\<close>

lemma map_of_insort_key:
  "map_of m p = None \<Longrightarrow> map_of (insort_key fst (p, v) m) = (map_of m)(p \<mapsto> v)"
  by (induction m) (auto split: if_splits)

lemma map_of_subscript:
  "map_of (snd (subscript m p)) q = (if q = p \<and> map_of m p = None then Some None else map_of m q)"
  by (auto simp: subscript_def map_of_insort_key split: option.splits)

lemma fst_subscript: "fst (subscript m p) = chunk_at m p"
  by (simp add: subscript_def chunk_at_def split: option.splits)

lemma subscript_present: "map_of m p = Some v \<Longrightarrow> subscript m p = (v, m)"
  by (simp add: subscript_def)

lemma chunk_at_subscript: "chunk_at (snd (subscript m p)) q = chunk_at m q"
  by (simp add: chunk_at_def map_of_subscript)

lemma count_pos: "(count m p > 0) = (map_of m p \<noteq> None)" "(count m p = 0) = (map_of m p = None)"
  "(count m p \<noteq> 0) = (map_of m p \<noteq> None)"
  by (auto simp: count_def split: option.splits)

lemma touch_all_simps [simp]: "touch_all m [] = m" "touch_all m (a # as) = touch_all (snd (subscript m a)) as"
  by (simp_all add: touch_all_def)

lemma map_of_touch_all:
  "map_of (touch_all m as) q = (if q \<in> set as \<and> map_of m q = None then Some None else map_of m q)"
  by (induction as arbitrary: m) (auto simp: map_of_subscript)

lemma chunk_at_touch_all [simp]: "chunk_at (touch_all m as) q = chunk_at m q"
  by (induction as arbitrary: m) (auto simp: chunk_at_subscript)

lemma inspect_flags_step:
  "inspect_flags fe (a # as) (au, ru, m) =
     inspect_flags fe as
       (au \<and> (\<forall>s. chunk_at m a = Some s \<longrightarrow> is_uniform s),
        (if \<exists>s. chunk_at m a = Some s \<and> is_uniform s \<and> reverted s then fe else ru),
        snd (subscript m a))"
proof -
  obtain sm m' where sub: "subscript m a = (sm, m')" by (cases "subscript m a")
  have sm: "chunk_at m a = sm" using fst_subscript [of m a] sub by simp
  show ?thesis by (cases sm) (simp_all add: sub sm)
qed

lemma inspect_flags_eq:
  "inspect_flags fe as (au, ru, m) =
     (au \<and> (\<forall>a\<in>set as. \<forall>s. chunk_at m a = Some s \<longrightarrow> is_uniform s),
      (if \<exists>a\<in>set as. \<exists>s. chunk_at m a = Some s \<and> is_uniform s \<and> reverted s then fe else ru),
      touch_all m as)"
proof (induction as arbitrary: au ru m)
  case Nil
  then show ?case by simp
next
  case (Cons a as)
  show ?case
    unfolding inspect_flags_step Cons.IH
    by (auto simp: chunk_at_subscript)
qed

lemma queue_resident_eq:
  "queue_resident as (dl, m) = (dl @ filter (\<lambda>a. chunk_at m a \<noteq> None) as, m)"
proof (induction as arbitrary: dl)
  case Nil
  then show ?case by simp
next
  case (Cons a as)
  show ?case
  proof (cases "map_of m a")
    case None
    then show ?thesis by (simp add: Cons.IH count_pos chunk_at_def)
  next
    case (Some v)
    then show ?thesis by (cases v) (simp_all add: Cons.IH count_pos chunk_at_def subscript_present)
  qed
qed

lemma write_records_eq:
  "write_records e das as (out, dl, m) =
     (out @ map (\<lambda>a. submap_record e a (the (chunk_at m a))) (filter (\<lambda>a. chunk_at m a \<noteq> None) as),
      dl @ (if das then filter (\<lambda>a. chunk_at m a \<noteq> None) as else []),
      m)"
proof (induction as arbitrary: out dl)
  case Nil
  then show ?case by simp
next
  case (Cons a as)
  show ?case
  proof (cases "map_of m a")
    case None
    then show ?thesis by (simp add: Cons.IH count_pos chunk_at_def)
  next
    case (Some v)
    then show ?thesis by (cases v) (simp_all add: Cons.IH count_pos chunk_at_def subscript_present)
  qed
qed

lemma inspect_flags_quad:
  "inspect_flags fe (submap_addrs_of om) (True, False, m) =
     (quad_all_uniform m om, quad_reverted m om \<and> fe, touch_all m (submap_addrs_of om))"
  unfolding inspect_flags_eq quad_all_uniform_def quad_reverted_def by simp

lemma queue_resident_quad:
  "queue_resident (submap_addrs_of om) (dl, touch_all m as) =
     (dl @ resident_addrs m om, touch_all m as)"
  unfolding queue_resident_eq resident_addrs_def by simp

lemma quad_writer_eq:
  "submaps st = touch_all m as \<Longrightarrow>
   quad_writer e das (submap_addrs_of om) (dl, st) =
     (JArray (quad_records e m om), dl @ (if das then resident_addrs m om else []), st)"
  unfolding quad_writer_def write_records_eq resident_addrs_def quad_records_def by simp

lemma save_quad_skip:
  assumes "quad_all_uniform (submaps st) om" "\<not> (quad_reverted (submaps st) om \<and> fs_exists st f)"
  shows "save_quad e d f om dl das st =
     ((if das then dl @ resident_addrs (submaps st) om else dl),
      st \<lparr> submaps := touch_all (submaps st) (submap_addrs_of om) \<rparr>)"
  using assms unfolding save_quad_def Let_def inspect_flags_quad
  by (simp add: queue_resident_quad)

lemma save_quad_write:
  assumes "\<not> (quad_all_uniform (submaps st) om \<and> \<not> (quad_reverted (submaps st) om \<and> fs_exists st f))"
  shows "save_quad e d f om dl das st =
     (let m = submaps st;
          au = quad_all_uniform m om;
          res = resident_addrs m om;
          dl1 = (if au \<and> das then dl @ res else dl);
          dl2 = (if write_result e f = OpenFails then dl1 else dl1 @ (if das then res else []));
          fs3 = (if write_result e f = WriteOk then (files st)(f \<mapsto> JArray (quad_records e m om))
                 else files st)
      in (dl2, st \<lparr> submaps := touch_all m (submap_addrs_of om),
                   dirs := insert d (dirs st),
                   files := (if au then fs3(f := None) else fs3) \<rparr>))"
proof -
  let ?m = "submaps st"
  let ?A = "submap_addrs_of om"
  let ?st2 = "assure_dir_exist d (st \<lparr> submaps := touch_all ?m ?A \<rparr>)"
  have w: "quad_writer e b ?A (l, ?st2) =
      (JArray (quad_records e ?m om), l @ (if b then resident_addrs ?m om else []), ?st2)" for l b
    by (rule quad_writer_eq [where as = ?A]) (simp add: assure_dir_exist_def)
  show ?thesis
  proof (cases "write_result e f")
    case WriteOk
    then show ?thesis
      using assms unfolding save_quad_def Let_def inspect_flags_quad
      by (simp add: queue_resident_quad write_to_file_def w fs_remove_def)
         (simp add: assure_dir_exist_def)
  next
    case OpenFails
    then show ?thesis
      using assms unfolding save_quad_def Let_def inspect_flags_quad
      by (simp add: queue_resident_quad write_to_file_def w fs_remove_def)
         (simp add: assure_dir_exist_def)
  next
    case CommitFails
    then show ?thesis
      using assms unfolding save_quad_def Let_def inspect_flags_quad
      by (simp add: queue_resident_quad write_to_file_def w fs_remove_def)
         (simp add: assure_dir_exist_def)
  qed
qed

lemma submap_addrs_of_origin:
  "submap_addrs_of (0, 0, 0) = [(0, 0, 0), (0, 1, 0), (1, 0, 0), (1, 1, 0)]"
  by (simp add: submap_addrs_of_def offsets_def project_to_sm_def add_point_def
      point_zero_def point_south_def point_east_def point_south_east_def)

text \<open>
  C3. Inserting at a coordinate that is already a key of the cache fails and changes
  nothing: both overloads of \<open>add_submap\<close> return false and the world as it was, the
  chunk stored at the coordinate included; the caller's \<open>unique_ptr\<close> still holds the
  rejected chunk, and through the raw-pointer overload the rejected chunk is released by
  the temporary, not destroyed.
\<close>

theorem add_submap_rejects_resident:
  assumes "map_of (submaps st) p \<noteq> None"
  shows "add_submap p sm st = (False, sm, st) \<and> add_submap_raw p sm st = (False, sm, False, st)"
  using assms by (simp add: add_submap_def add_submap_raw_def count_pos)

text \<open>A chunk offered at a coordinate that holds one.\<close>

theorem add_submap_rejects_resident_witness:
  "map_of (submaps tombstone_world) (0, 0, 0) \<noteq> None
   \<and> add_submap (0, 0, 0) (Some rock_chunk) tombstone_world = (False, Some rock_chunk, tombstone_world)
   \<and> add_submap_raw (0, 0, 0) (Some rock_chunk) tombstone_world
       = (False, Some rock_chunk, False, tombstone_world)"
proof -
  have h: "map_of (submaps tombstone_world) (0, 0, 0) \<noteq> None"
    by (simp add: tombstone_world_def)
  show ?thesis
    using h add_submap_rejects_resident [OF h, of "Some rock_chunk"] by simp
qed

text \<open>
  C1. Tombstone: when the file of the quad exists, each of the four coordinates holds a
  uniform chunk and at least one of them is flagged \<open>reverted\<close>, there is no file at the
  path of the quad after \<open>save_quad\<close>, whatever the deletion flag and whether or not
  the write before the removal succeeded.
\<close>

theorem tombstone_deletes_file:
  assumes "fs_exists st filename"
    and "\<forall>a\<in>set (submap_addrs_of om_addr). \<exists>s. chunk_at (submaps st) a = Some s \<and> is_uniform s"
    and "\<exists>a\<in>set (submap_addrs_of om_addr). \<exists>s. chunk_at (submaps st) a = Some s \<and> reverted s"
  shows "files (snd (save_quad e dirname filename om_addr submaps_to_delete delete_after_save st)) filename = None"
proof -
  have au: "quad_all_uniform (submaps st) om_addr"
    using assms(2) unfolding quad_all_uniform_def by fastforce
  have ru: "quad_reverted (submaps st) om_addr"
    using assms(2,3) unfolding quad_reverted_def by fastforce
  have "\<not> (quad_all_uniform (submaps st) om_addr
            \<and> \<not> (quad_reverted (submaps st) om_addr \<and> fs_exists st filename))"
    using ru assms(1) by simp
  from save_quad_write [OF this] show ?thesis
    using au by (simp add: Let_def)
qed

text \<open>Four uniform chunks, the first reverted, and a file: the file is gone.\<close>

theorem tombstone_deletes_file_witness:
  "fs_exists tombstone_world ''save/maps/0.0.0/0.0.0.map''
   \<and> files (snd (save_quad example_env ''save/maps/0.0.0'' ''save/maps/0.0.0/0.0.0.map'' (0, 0, 0) [] True
                   tombstone_world)) ''save/maps/0.0.0/0.0.0.map'' = None"
proof -
  have h1: "fs_exists tombstone_world ''save/maps/0.0.0/0.0.0.map''"
    by (simp add: fs_exists_def tombstone_world_def)
  have h2: "\<forall>a\<in>set (submap_addrs_of (0, 0, 0)).
              \<exists>s. chunk_at (submaps tombstone_world) a = Some s \<and> is_uniform s"
    by (simp add: submap_addrs_of_origin tombstone_world_def chunk_at_def
        uniform_chunk_def reverted_chunk_def)
  have h3: "\<exists>a\<in>set (submap_addrs_of (0, 0, 0)).
              \<exists>s. chunk_at (submaps tombstone_world) a = Some s \<and> reverted s"
    by (simp add: submap_addrs_of_origin tombstone_world_def chunk_at_def
        uniform_chunk_def reverted_chunk_def)
  show ?thesis
    using h1 tombstone_deletes_file [OF h1 h2 h3] by simp
qed

text \<open>
  C9. \<open>save_quad\<close> writes to the cache: a coordinate of the quad that is not a key of the
  cache before the call is a key with a null chunk after it. It is not among the
  coordinates a record is written for: the file of the quad is then as before, removed,
  or the array of the records of the coordinates that held a chunk before the call.
\<close>

theorem save_quad_inserts_null_chunk:
  assumes "a \<in> set (submap_addrs_of om_addr)"
    and "map_of (submaps st) a = None"
    and "save_quad e dirname filename om_addr submaps_to_delete delete_after_save st
           = (submaps_to_delete', st')"
  shows "map_of (submaps st') a = Some None
       \<and> a \<notin> set (resident_addrs (submaps st) om_addr)
       \<and> (files st' filename = files st filename \<or> files st' filename = None
          \<or> files st' filename =
              Some (JArray (map (\<lambda>b. submap_record e b (the (chunk_at (submaps st) b)))
                             (resident_addrs (submaps st) om_addr))))"
proof -
  have absent: "a \<notin> set (resident_addrs (submaps st) om_addr)"
    using assms(2) by (simp add: resident_addrs_def chunk_at_def)
  have touched: "map_of (touch_all (submaps st) (submap_addrs_of om_addr)) a = Some None"
    using assms(1,2) by (simp add: map_of_touch_all)
  show ?thesis
  proof (cases "quad_all_uniform (submaps st) om_addr
                \<and> \<not> (quad_reverted (submaps st) om_addr \<and> fs_exists st filename)")
    case True
    then have "save_quad e dirname filename om_addr submaps_to_delete delete_after_save st =
       ((if delete_after_save then submaps_to_delete @ resident_addrs (submaps st) om_addr
         else submaps_to_delete),
        st \<lparr> submaps := touch_all (submaps st) (submap_addrs_of om_addr) \<rparr>)"
      by (intro save_quad_skip) simp_all
    with assms(3) have "st' = st \<lparr> submaps := touch_all (submaps st) (submap_addrs_of om_addr) \<rparr>"
      by simp
    then show ?thesis using absent touched by simp
  next
    case False
    from save_quad_write [OF False, of e dirname submaps_to_delete delete_after_save] assms(3)
    have "submaps st' = touch_all (submaps st) (submap_addrs_of om_addr)"
      and "files st' filename = files st filename \<or> files st' filename = None
          \<or> files st' filename = Some (JArray (quad_records e (submaps st) om_addr))"
      by (auto simp: Let_def)
    then show ?thesis using absent touched by (simp add: quad_records_def)
  qed
qed

text \<open>A quad with one chunk: the coordinate south of it becomes a key.\<close>

theorem save_quad_inserts_null_chunk_witness:
  "(0, 1, 0) \<in> set (submap_addrs_of (0, 0, 0))
   \<and> map_of (submaps lone_uniform_world) (0, 1, 0) = None
   \<and> map_of (submaps (snd (save_quad example_env ''save/maps/0.0.0'' ''save/maps/0.0.0/0.0.0.map''
                               (0, 0, 0) [] False lone_uniform_world))) (0, 1, 0) = Some None"
proof -
  have h1: "(0, 1, 0) \<in> set (submap_addrs_of (0, 0, 0))"
    by (simp add: submap_addrs_of_origin)
  have h2: "map_of (submaps lone_uniform_world) (0, 1, 0) = None"
    by (simp add: lone_uniform_world_def)
  show ?thesis
    using h1 h2 save_quad_inserts_null_chunk [OF h1 h2 prod.collapse [symmetric]] by simp
qed

text \<open>
  When all four coordinates of the quad are keys of the cache, the uniform skip changes
  nothing but the eviction list.
\<close>

lemma touch_all_present:
  "\<forall>a\<in>set as. map_of m a \<noteq> None \<Longrightarrow> touch_all m as = m"
  by (induction as) (auto simp: subscript_present)

lemma uniform_skip_all_present:
  assumes "\<forall>a\<in>set (submap_addrs_of om_addr). map_of (submaps st) a \<noteq> None"
    and "quad_all_uniform (submaps st) om_addr" and "\<not> fs_exists st filename"
  shows "save_quad e dirname filename om_addr submaps_to_delete delete_after_save st =
     ((if delete_after_save then submaps_to_delete @ resident_addrs (submaps st) om_addr
       else submaps_to_delete), st)"
  using assms by (simp add: save_quad_skip touch_all_present)

text \<open>
  C2. Uniform skip, on a quad with one uniform chunk, three coordinates absent from the
  cache and no file: \<open>save_quad\<close> without the deletion flag writes nothing and queues
  nothing, and yet the world is not the one it started from. The three absent coordinates
  are keys now, with null chunks, so that \<open>lookup_submap\<close> answers null for them without
  trying the disk and \<open>add_submap\<close> rejects a chunk offered for them.
\<close>

theorem uniform_skip_inserts_null_chunks:
  "\<not> fs_exists lone_uniform_world ''save/maps/0.0.0/0.0.0.map''
   \<and> resident_addrs (submaps lone_uniform_world) (0, 0, 0) = [(0, 0, 0)]
   \<and> chunk_at (submaps lone_uniform_world) (0, 0, 0) = Some uniform_chunk
   \<and> is_uniform uniform_chunk
   \<and> save_quad example_env ''save/maps/0.0.0'' ''save/maps/0.0.0/0.0.0.map'' (0, 0, 0) [] False
        lone_uniform_world = ([], lone_uniform_world_saved)
   \<and> lone_uniform_world_saved \<noteq> lone_uniform_world
   \<and> count (submaps lone_uniform_world_saved) (0, 1, 0) = 1
   \<and> lookup_submap example_env (0, 1, 0) lone_uniform_world_saved = (None, lone_uniform_world_saved)
   \<and> add_submap (0, 1, 0) (Some rock_chunk) lone_uniform_world_saved
        = (False, Some rock_chunk, lone_uniform_world_saved)"
proof -
  have ne: "\<not> fs_exists lone_uniform_world ''save/maps/0.0.0/0.0.0.map''"
    by (simp add: fs_exists_def lone_uniform_world_def)
  have au: "quad_all_uniform (submaps lone_uniform_world) (0, 0, 0)"
    by (simp add: quad_all_uniform_def submap_addrs_of_origin lone_uniform_world_def chunk_at_def
        uniform_chunk_def)
  have t: "touch_all (submaps lone_uniform_world) (submap_addrs_of (0, 0, 0))
             = submaps lone_uniform_world_saved"
    by (simp add: submap_addrs_of_origin lone_uniform_world_def lone_uniform_world_saved_def
        subscript_def)
  have s: "save_quad example_env ''save/maps/0.0.0'' ''save/maps/0.0.0/0.0.0.map'' (0, 0, 0) [] False
        lone_uniform_world = ([], lone_uniform_world_saved)"
    using ne au by (simp add: save_quad_skip t)
       (simp add: lone_uniform_world_def lone_uniform_world_saved_def)
  have d: "lone_uniform_world_saved \<noteq> lone_uniform_world"
    by (simp add: lone_uniform_world_def lone_uniform_world_saved_def)
  have c: "count (submaps lone_uniform_world_saved) (0, 1, 0) = 1"
    by (simp add: count_def lone_uniform_world_saved_def)
  have l: "lookup_submap example_env (0, 1, 0) lone_uniform_world_saved = (None, lone_uniform_world_saved)"
    by (simp add: lookup_submap_def lone_uniform_world_saved_def)
  have a: "add_submap (0, 1, 0) (Some rock_chunk) lone_uniform_world_saved
        = (False, Some rock_chunk, lone_uniform_world_saved)"
    by (simp add: add_submap_def c)
  have r: "resident_addrs (submaps lone_uniform_world) (0, 0, 0) = [(0, 0, 0)]"
    by (simp add: resident_addrs_def submap_addrs_of_origin lone_uniform_world_def chunk_at_def)
  have u: "chunk_at (submaps lone_uniform_world) (0, 0, 0) = Some uniform_chunk"
    "is_uniform uniform_chunk"
    by (simp_all add: lone_uniform_world_def chunk_at_def uniform_chunk_def)
  show ?thesis using ne r u s d c l a by simp
qed

text \<open>The version of a record is the number at its member \<open>version\<close>, and 0 without one.\<close>

lemma read_version_eq:
  "read_version submap_json =
     Inr (case map_of submap_json ''version'' of Some (JNumber n) \<Rightarrow> n | _ \<Rightarrow> 0)"
  by (simp add: read_version_def has_int_def get_int_def split: option.splits json.splits)

lemma load_members_calls:
  "load_members version members (sm, c) = Inr (sm', c') \<Longrightarrow>
   load_calls sm' = load_calls sm
      @ map (\<lambda>(name, member). (name, member, version))
          (filter (\<lambda>(name, member). name \<noteq> ''coordinates'') members)"
proof (induction members arbitrary: sm c)
  case Nil
  then show ?case by simp
next
  case (Cons nm members)
  obtain name member where nm: "nm = (name, member)" by (cases nm)
  show ?case
  proof (cases "name = ''coordinates''")
    case True
    with Cons.prems nm obtain loc where "load_members version members (sm, loc) = Inr (sm', c')"
      by (auto split: sum.splits)
    from Cons.IH [OF this] show ?thesis using True nm by simp
  next
    case False
    with Cons.prems nm
    have "load_members version members (load sm member name version, c) = Inr (sm', c')"
      by simp
    from Cons.IH [OF this] show ?thesis using False nm by (simp add: load_def)
  qed
qed

lemma load_members_total:
  "\<forall>(name, member)\<in>set members. name = ''coordinates'' \<longrightarrow> \<not> isl (read_coordinates member) \<Longrightarrow>
   \<exists>sm' c'. load_members version members (sm, c) = Inr (sm', c')"
proof (induction members arbitrary: sm c)
  case Nil
  have "load_members version [] (sm, c) = Inr (sm, c)" by simp
  then show ?case by blast
next
  case (Cons nm members)
  obtain name member where nm: "nm = (name, member)" by (cases nm)
  have rest: "\<forall>(name, member)\<in>set members. name = ''coordinates'' \<longrightarrow> \<not> isl (read_coordinates member)"
    using Cons.prems by simp
  show ?case
  proof (cases "name = ''coordinates''")
    case True
    with Cons.prems nm obtain loc where "read_coordinates member = Inr loc"
      by (cases "read_coordinates member") auto
    moreover obtain sm' c' where "load_members version members (sm, loc) = Inr (sm', c')"
      using Cons.IH [OF rest, of sm loc] by blast
    ultimately have "load_members version (nm # members) (sm, c) = Inr (sm', c')"
      using True nm by simp
    then show ?thesis by blast
  next
    case False
    obtain sm' c' where
      "load_members version members (load sm member name version, c) = Inr (sm', c')"
      using Cons.IH [OF rest, of "load sm member name version" c] by blast
    then have "load_members version (nm # members) (sm, c) = Inr (sm', c')"
      using False nm by simp
    then show ?thesis by blast
  qed
qed

lemma map_of_reordered:
  "distinct (map fst xs) \<Longrightarrow> distinct (map fst ys) \<Longrightarrow> set ys = set xs \<Longrightarrow> map_of ys = map_of xs"
  by (simp add: map_of_inject_set)

text \<open>
  C8. When a record is deserialized, its version is fixed before the loop over the members
  starts: it is the number at the member \<open>version\<close> of the record (0 when there is none
  or it is no number), so for a record with distinct member names and a member
  \<open>version\<close> of number n it is n. Every member but \<open>coordinates\<close> is handed to \<open>load\<close>
  with that version, in the order of the record. The version does not depend on where
  the member stands: any reordering of a record with distinct member names has the same
  version.
\<close>

theorem version_read_first:
  assumes "deserialize_submap (JObject submap_json) = Inr (submap_coordinates, sm)"
  shows "\<exists>version. read_version submap_json = Inr version
     \<and> version = (case map_of submap_json ''version'' of Some (JNumber n) \<Rightarrow> n | _ \<Rightarrow> 0)
     \<and> (\<forall>n. distinct (map fst submap_json) \<and> (''version'', JNumber n) \<in> set submap_json
          \<longrightarrow> version = n)
     \<and> load_calls sm = map (\<lambda>(name, member). (name, member, version))
                         (filter (\<lambda>(name, member). name \<noteq> ''coordinates'') submap_json)
     \<and> (\<forall>reordered. distinct (map fst submap_json) \<and> distinct (map fst reordered)
            \<and> set reordered = set submap_json
          \<longrightarrow> read_version reordered = Inr version)"
proof -
  obtain version where v: "read_version submap_json = Inr version"
    and field: "version = (case map_of submap_json ''version'' of Some (JNumber n) \<Rightarrow> n | _ \<Rightarrow> 0)"
    by (simp add: read_version_eq)
  have member: "version = n"
    if "distinct (map fst submap_json)" "(''version'', JNumber n) \<in> set submap_json" for n
  proof -
    from that have "map_of submap_json ''version'' = Some (JNumber n)" by simp
    with field show ?thesis by simp
  qed
  from v assms have "load_members version submap_json (new_submap, (0, 0, 0)) = Inr (sm, submap_coordinates)"
    by (auto simp: deserialize_submap_def split: sum.splits)
  from load_members_calls [OF this]
  have calls: "load_calls sm = map (\<lambda>(name, member). (name, member, version))
                         (filter (\<lambda>(name, member). name \<noteq> ''coordinates'') submap_json)"
    by (simp add: new_submap_def)
  have "read_version reordered = Inr version"
    if "distinct (map fst submap_json)" "distinct (map fst reordered)" "set reordered = set submap_json"
    for reordered
  proof -
    have "map_of reordered = map_of submap_json"
      using that by (intro map_of_reordered)
    with v show ?thesis by (simp add: read_version_eq)
  qed
  with v field member calls show ?thesis by blast
qed

lemma deserialize_example_record:
  "deserialize_submap (JObject example_record) = Inr ((1, 2, 3), example_loaded)"
  by (simp add: deserialize_submap_def example_record_def example_loaded_def read_version_eq
      read_coordinates_def next_int_def load_def new_submap_def)

text \<open>
  A record of version 7, written by an older release: the member before the version is
  loaded with the 7 that follows it.
\<close>

theorem version_read_first_witness:
  "deserialize_submap (JObject example_record) = Inr ((1, 2, 3), example_loaded)
   \<and> distinct (map fst example_record)
   \<and> (''version'', JNumber 7) \<in> set example_record
   \<and> read_version example_record = Inr 7
   \<and> load_calls example_loaded = [(''terrain'', JString ''t_dirt'', 7), (''version'', JNumber 7, 7)]"
proof -
  have h: "deserialize_submap (JObject example_record) = Inr ((1, 2, 3), example_loaded)"
    by (rule deserialize_example_record)
  have d: "distinct (map fst example_record)" "(''version'', JNumber 7) \<in> set example_record"
    by (simp_all add: example_record_def)
  from version_read_first [OF h] obtain version where
    v: "read_version example_record = Inr version"
    and m: "\<forall>n. distinct (map fst example_record) \<and> (''version'', JNumber n) \<in> set example_record
              \<longrightarrow> version = n"
    and c: "load_calls example_loaded = map (\<lambda>(name, member). (name, member, version))
                         (filter (\<lambda>(name, member). name \<noteq> ''coordinates'') example_record)"
    by blast
  from m d have "version = 7" by blast
  with h d v c show ?thesis by (simp add: example_record_def)
qed

text \<open>
  C10. A record with no member \<open>version\<close> has version 0: every member handed to \<open>load\<close>
  carries 0, and the missing version is no error, since the record deserializes whenever
  its \<open>coordinates\<close> members are arrays that start with three numbers.
\<close>

theorem missing_version_is_zero:
  assumes "''version'' \<notin> fst ` set submap_json"
  shows "read_version submap_json = Inr 0
     \<and> (\<forall>c sm. deserialize_submap (JObject submap_json) = Inr (c, sm)
          \<longrightarrow> load_calls sm = map (\<lambda>(name, member). (name, member, 0))
                                 (filter (\<lambda>(name, member). name \<noteq> ''coordinates'') submap_json))
     \<and> ((\<forall>(name, member)\<in>set submap_json.
            name = ''coordinates'' \<longrightarrow> \<not> isl (read_coordinates member))
          \<longrightarrow> (\<exists>c sm. deserialize_submap (JObject submap_json) = Inr (c, sm)))"
proof -
  have none: "map_of submap_json ''version'' = None"
    using assms by (simp add: map_of_eq_None_iff)
  then have v: "read_version submap_json = Inr 0"
    by (simp add: read_version_eq)
  have calls: "load_calls sm = map (\<lambda>(name, member). (name, member, 0))
                                 (filter (\<lambda>(name, member). name \<noteq> ''coordinates'') submap_json)"
    if "deserialize_submap (JObject submap_json) = Inr (c, sm)" for c sm
  proof -
    from that v have "load_members 0 submap_json (new_submap, (0, 0, 0)) = Inr (sm, c)"
      by (auto simp: deserialize_submap_def split: sum.splits)
    from load_members_calls [OF this] show ?thesis by (simp add: new_submap_def)
  qed
  have ok: "\<exists>c sm. deserialize_submap (JObject submap_json) = Inr (c, sm)"
    if "\<forall>(name, member)\<in>set submap_json. name = ''coordinates'' \<longrightarrow> \<not> isl (read_coordinates member)"
  proof -
    from load_members_total [OF that, of 0 new_submap "(0, 0, 0)"]
    obtain sm' c' where "load_members 0 submap_json (new_submap, (0, 0, 0)) = Inr (sm', c')"
      by blast
    then have "deserialize_submap (JObject submap_json) = Inr (c', sm')"
      by (simp add: deserialize_submap_def v)
    then show ?thesis by blast
  qed
  from v calls ok show ?thesis by blast
qed

text \<open>The record with no version is loaded as version 0.\<close>

theorem missing_version_is_zero_witness:
  "''version'' \<notin> fst ` set unversioned_record
   \<and> read_version unversioned_record = Inr 0
   \<and> deserialize_submap (JObject unversioned_record)
       = Inr ((4, 5, 0), new_submap \<lparr> load_calls := [(''terrain'', JString ''t_dirt'', 0)] \<rparr>)"
proof -
  have h: "''version'' \<notin> fst ` set unversioned_record"
    by (simp add: unversioned_record_def)
  have d: "deserialize_submap (JObject unversioned_record)
       = Inr ((4, 5, 0), new_submap \<lparr> load_calls := [(''terrain'', JString ''t_dirt'', 0)] \<rparr>)"
    by (simp add: deserialize_submap_def unversioned_record_def read_version_eq
      read_coordinates_def next_int_def load_def new_submap_def)
  show ?thesis
    using h d missing_version_is_zero [OF h] by simp
qed

text \<open>Loading only ever inserts chunks, never null pointers.\<close>

lemma map_of_assign_absent:
  "map_of m q = None \<Longrightarrow> map_of (assign m q v) = (map_of m)(q \<mapsto> v)"
  by (simp add: assign_def map_of_insort_key)

lemma add_submap_chunk_keeps:
  assumes "add_submap q (Some sm) st = (added, sm', st')" "map_of (submaps st) p \<noteq> Some None"
  shows "map_of (submaps st') p \<noteq> Some None"
  using assms by (auto simp: add_submap_def count_pos map_of_assign_absent split: if_splits)

lemma deserialize_keeps:
  "deserialize ja st = (r, st') \<Longrightarrow> map_of (submaps st) p \<noteq> Some None \<Longrightarrow>
   map_of (submaps st') p \<noteq> Some None"
proof (induction ja arbitrary: st)
  case Nil
  then show ?case by simp
next
  case (Cons j ja)
  show ?case
  proof (cases "deserialize_submap j")
    case (Inl err)
    with Cons.prems show ?thesis by simp
  next
    case (Inr cs)
    obtain c sm where cs: "cs = (c, sm)" by (cases cs)
    obtain added sm' st1 where a: "add_submap c (Some sm) st = (added, sm', st1)"
      by (cases "add_submap c (Some sm) st")
    let ?st2 = "if \<not> added then debugmsg (Already_loaded c) st1 else st1"
    have "map_of (submaps st1) p \<noteq> Some None"
      using add_submap_chunk_keeps [OF a Cons.prems(2)] .
    then have k: "map_of (submaps ?st2) p \<noteq> Some None"
      by (simp add: debugmsg_def)
    have "deserialize ja ?st2 = (r, st')"
      using Cons.prems(1) Inr cs a by simp
    from Cons.IH [OF this k] show ?thesis .
  qed
qed

lemma generate_step_keeps:
  "map_of (submaps s) p \<noteq> Some None \<Longrightarrow>
   map_of (submaps (if count (submaps s) pos = 0 then
                      (case generate_uniform e oid of
                         None \<Rightarrow> s
                       | Some sm \<Rightarrow> snd (snd (add_submap pos (Some sm) s)))
                    else s)) p \<noteq> Some None"
  by (auto simp: add_submap_def count_pos map_of_assign_absent split: option.splits)

lemma generate_step_msgs:
  "msgs (if count (submaps s) pos = 0 then
           (case generate_uniform e oid of
              None \<Rightarrow> s
            | Some sm \<Rightarrow> snd (snd (add_submap pos (Some sm) s)))
         else s) = msgs s"
  by (auto simp: add_submap_def split: option.splits)

lemma generate_fold_keeps:
  "map_of (submaps st) p \<noteq> Some None \<Longrightarrow>
   map_of (submaps (foldl (\<lambda>s offset.
              if count (submaps s) (add_point q offset) = 0 then
                (case generate_uniform e oid of
                   None \<Rightarrow> s
                 | Some sm \<Rightarrow> snd (snd (add_submap (add_point q offset) (Some sm) s)))
              else s) st os)) p \<noteq> Some None"
  by (induction os arbitrary: st) (simp_all add: generate_step_keeps)

lemma generate_fold_msgs:
  "msgs (foldl (\<lambda>s offset.
              if count (submaps s) (add_point q offset) = 0 then
                (case generate_uniform e oid of
                   None \<Rightarrow> s
                 | Some sm \<Rightarrow> snd (snd (add_submap (add_point q offset) (Some sm) s)))
              else s) st os) = msgs st"
  by (induction os arbitrary: st) (simp_all add: generate_step_msgs)

lemma generate_uniform_omt_keeps:
  "map_of (submaps st) p \<noteq> Some None \<Longrightarrow>
   map_of (submaps (generate_uniform_omt e q oid st)) p \<noteq> Some None"
  unfolding generate_uniform_omt_def Let_def by (rule generate_fold_keeps)

lemma generate_uniform_omt_msgs:
  "msgs (generate_uniform_omt e q oid st) = msgs st"
  unfolding generate_uniform_omt_def Let_def by (rule generate_fold_msgs)

lemma read_ok_keeps:
  assumes "read_from_file_optional_json path deserialize_value st = (True, st1)"
    and "map_of (submaps st) p \<noteq> Some None"
  shows "map_of (submaps st1) p \<noteq> Some None"
proof -
  from assms(1) obtain jsin where f: "files st path = Some jsin"
    and d: "deserialize_value jsin st = (None, st1)"
    by (auto simp: read_from_file_optional_json_def split: option.splits prod.splits)
  from d obtain ja where "deserialize ja st = (None, st1)"
    by (auto simp: deserialize_value_def split: json.splits)
  from deserialize_keeps [OF this assms(2)] show ?thesis .
qed

text \<open>
  C6. After the region file has been read without error and the uniform chunks have been
  generated, \<open>unserialize_submaps\<close> returns in one of two ways. Either the requested
  coordinate is a key of the cache and the pointer stored there is returned, a chunk
  whenever the coordinate was absent before the load; or the coordinate is still absent,
  null is returned and the last message logged names the file, the coordinate and the
  terrain. Both are ordinary returns.
\<close>

theorem load_integrity:
  assumes "read_from_file_optional_json (resolve_quad_path e st (project_to_omt p))
             deserialize_value st = (True, st1)"
    and "unserialize_submaps e p st = (r, st')"
  shows "(map_of (submaps st') p = Some r \<and> (map_of (submaps st) p = None \<longrightarrow> r \<noteq> None))
       \<or> (r = None \<and> map_of (submaps st') p = None
          \<and> msgs st' = msgs st1 @ [Did_not_contain_expected
                 (resolve_quad_path e st (project_to_omt p)) p (ter e (project_to_omt p))])"
proof -
  let ?om = "project_to_omt p"
  let ?path = "resolve_quad_path e st ?om"
  let ?st2 = "generate_uniform_omt e (project_to_sm ?om) (ter e ?om) st1"
  show ?thesis
  proof (cases "map_of (submaps ?st2) p")
    case None
    then have "unserialize_submaps e p st
        = (None, debugmsg (Did_not_contain_expected ?path p (ter e ?om)) ?st2)"
      using assms(1) by (simp add: unserialize_submaps_def Let_def count_pos)
    with assms(2) have "r = None" "st' = debugmsg (Did_not_contain_expected ?path p (ter e ?om)) ?st2"
      by simp_all
    then show ?thesis
      using None by (simp add: debugmsg_def generate_uniform_omt_msgs)
  next
    case (Some sm)
    then have "unserialize_submaps e p st = (sm, ?st2)"
      using assms(1) by (simp add: unserialize_submaps_def Let_def count_pos subscript_present)
    with assms(2) have r: "r = sm" "st' = ?st2" by simp_all
    have "sm \<noteq> None" if "map_of (submaps st) p = None"
    proof -
      from that have "map_of (submaps st) p \<noteq> Some None" by simp
      from read_ok_keeps [OF assms(1) this] have "map_of (submaps st1) p \<noteq> Some None" .
      from generate_uniform_omt_keeps [OF this, of e "project_to_sm ?om" "ter e ?om"] Some
      show ?thesis by (cases sm) simp_all
    qed
    then show ?thesis using r Some by simp
  qed
qed

text \<open>A terrain with no uniform chunk generates nothing.\<close>

lemma generate_fold_none:
  "generate_uniform e oid = None \<Longrightarrow>
   foldl (\<lambda>s offset.
              if count (submaps s) (add_point q offset) = 0 then
                (case generate_uniform e oid of
                   None \<Rightarrow> s
                 | Some sm \<Rightarrow> snd (snd (add_submap (add_point q offset) (Some sm) s)))
              else s) st os = st"
  by (induction os arbitrary: st) simp_all

lemma generate_uniform_omt_none:
  "generate_uniform e oid = None \<Longrightarrow> generate_uniform_omt e q oid st = st"
  unfolding generate_uniform_omt_def Let_def by (rule generate_fold_none)

lemma format_d_small [simp]: "format_d 0 = ''0''" "format_d 38 = ''38''" "format_d 1234 = ''1234''"
  by (simp_all add: format_d_def format_nat.simps digit_def)

lemma resolve_saved_world:
  "resolve_quad_path example_env saved_world (0, 0, 0) = ''save/maps/0.0.0/0.0.0.map''"
  by (simp add: resolve_quad_path_def find_dirname_def find_quad_path_def project_to_seg_def
      path_join_def example_env_def fs_exists_def saved_world_def)

lemma read_saved_world:
  "read_from_file_optional_json ''save/maps/0.0.0/0.0.0.map'' deserialize_value saved_world
     = (True, saved_world \<lparr> submaps := [((0, 0, 0), Some loaded_chunk)] \<rparr>)"
  by (simp add: read_from_file_optional_json_def saved_world_def deserialize_value_def
      deserialize_submap_def read_version_eq read_coordinates_def next_int_def load_def
      add_submap_def count_def assign_def loaded_chunk_def new_submap_def)

text \<open>The chunk in the file is returned; its neighbour, not in the file, is reported.\<close>

theorem load_integrity_witness:
  "read_from_file_optional_json (resolve_quad_path example_env saved_world (project_to_omt (0, 0, 0)))
      deserialize_value saved_world = (True, saved_world \<lparr> submaps := [((0, 0, 0), Some loaded_chunk)] \<rparr>)
   \<and> fst (unserialize_submaps example_env (0, 0, 0) saved_world) = Some loaded_chunk
   \<and> fst (unserialize_submaps example_env (0, 1, 0) saved_world) = None
   \<and> msgs (snd (unserialize_submaps example_env (0, 1, 0) saved_world))
       = [Did_not_contain_expected ''save/maps/0.0.0/0.0.0.map'' (0, 1, 0) ''field'']"
proof -
  have om: "project_to_omt (0, 0, 0) = (0, 0, 0)" "project_to_omt (0, 1, 0) = (0, 0, 0)"
    by (simp_all add: project_to_omt_def)
  have h: "read_from_file_optional_json (resolve_quad_path example_env saved_world (project_to_omt (0, 0, 0)))
      deserialize_value saved_world = (True, saved_world \<lparr> submaps := [((0, 0, 0), Some loaded_chunk)] \<rparr>)"
    by (simp add: om resolve_saved_world read_saved_world)
  have h': "read_from_file_optional_json (resolve_quad_path example_env saved_world (project_to_omt (0, 1, 0)))
      deserialize_value saved_world = (True, saved_world \<lparr> submaps := [((0, 0, 0), Some loaded_chunk)] \<rparr>)"
    by (simp add: om resolve_saved_world read_saved_world)
  have t: "ter example_env om = ''field''" for om
    by (simp add: example_env_def)
  have g: "generate_uniform_omt example_env q ''field'' s = s" for s q
    by (rule generate_uniform_omt_none) (simp add: example_env_def)
  have u0: "unserialize_submaps example_env (0, 0, 0) saved_world
      = (Some loaded_chunk, saved_world \<lparr> submaps := [((0, 0, 0), Some loaded_chunk)] \<rparr>)"
    using h by (simp add: unserialize_submaps_def om t g count_def subscript_def)
  have u1: "unserialize_submaps example_env (0, 1, 0) saved_world
      = (None, saved_world \<lparr> submaps := [((0, 0, 0), Some loaded_chunk)],
                 msgs := [Did_not_contain_expected ''save/maps/0.0.0/0.0.0.map'' (0, 1, 0) ''field''] \<rparr>)"
    using h' by (simp add: unserialize_submaps_def om t g count_def resolve_saved_world debugmsg_def)
       (simp add: saved_world_def)
  show ?thesis
    using h u0 u1 load_integrity [OF h u0] load_integrity [OF h' u1] by simp
qed

text \<open>
  C7. For the quad x.y.z of the requested coordinate, in the directory of its segment, the
  canonical path is the file named by the three numbers in decimal, joined by periods,
  with the suffix \<open>.map\<close>; the legacy path is the file in the same directory named the
  same way from the three numbers as the locale formats them. With a file at the
  canonical path, that path is the one read. With no file there and a file at the legacy
  path, the legacy path is read, and when its text deserializes the cache after the load
  is the cache after deserializing that text and generating the uniform chunks.
\<close>

theorem legacy_fallback:
  assumes "project_to_omt p = (x, y, z)"
    and "dirname = world_base_save_path e @ ''/maps/''
                    @ format_d (x div 32) @ ''.'' @ format_d (y div 32) @ ''.'' @ format_d z"
    and "canonical = dirname @ ''/'' @ format_d x @ ''.'' @ format_d y @ ''.'' @ format_d z @ ''.map''"
    and "legacy = dirname @ ''/'' @ locale_format e x @ ''.'' @ locale_format e y @ ''.''
                    @ locale_format e z @ ''.map''"
  shows "(fs_exists st canonical \<longrightarrow> resolve_quad_path e st (x, y, z) = canonical)
       \<and> (\<not> fs_exists st canonical \<and> files st legacy = Some jsin \<longrightarrow>
            resolve_quad_path e st (x, y, z) = legacy
          \<and> (\<forall>st1. deserialize_value jsin st = (None, st1) \<longrightarrow>
                submaps (snd (unserialize_submaps e p st))
                  = submaps (generate_uniform_omt e (project_to_sm (x, y, z)) (ter e (x, y, z)) st1)))"
proof (intro conjI impI allI)
  have dir: "find_dirname e (x, y, z) = dirname"
    using assms(2) by (simp add: find_dirname_def project_to_seg_def path_join_def)
  have can: "find_quad_path dirname (x, y, z) = canonical"
    using assms(3) by (simp add: find_quad_path_def path_join_def)
  have leg: "legacy_quad_path e dirname (x, y, z) = legacy"
    using assms(4) by (simp add: legacy_quad_path_def path_join_def)
  {
    assume "fs_exists st canonical"
    then show "resolve_quad_path e st (x, y, z) = canonical"
      by (simp add: resolve_quad_path_def Let_def dir can)
  }
  assume a: "\<not> fs_exists st canonical \<and> files st legacy = Some jsin"
  then show r: "resolve_quad_path e st (x, y, z) = legacy"
    by (simp add: resolve_quad_path_def Let_def fs_exists_def dir can leg)
  fix st1
  assume d: "deserialize_value jsin st = (None, st1)"
  have "read_from_file_optional_json legacy deserialize_value st = (True, st1)"
    using a d by (simp add: read_from_file_optional_json_def)
  then show "submaps (snd (unserialize_submaps e p st))
      = submaps (generate_uniform_omt e (project_to_sm (x, y, z)) (ter e (x, y, z)) st1)"
    using r assms(1)
    by (auto simp: unserialize_submaps_def Let_def debugmsg_def count_pos subscript_present)
qed

text \<open>The quad 1234.0.0 is found under 1,234.0.0.map and its chunk is loaded.\<close>

theorem legacy_fallback_witness:
  "\<not> fs_exists legacy_world ''save/maps/38.0.0/1234.0.0.map''
   \<and> files legacy_world ''save/maps/38.0.0/1,234.0.0.map'' \<noteq> None
   \<and> resolve_quad_path legacy_env legacy_world (1234, 0, 0) = ''save/maps/38.0.0/1,234.0.0.map''
   \<and> submaps (snd (unserialize_submaps legacy_env (2468, 1, 0) legacy_world))
       = [((2468, 1, 0), Some loaded_chunk)]"
proof -
  let ?jsin = "JArray [JObject [(''version'', JNumber 33),
                                   (''coordinates'', JArray [JNumber 2468, JNumber 1, JNumber 0]),
                                   (''terrain'', JString ''t_rock'')]]"
  let ?st1 = "legacy_world \<lparr> submaps := [((2468, 1, 0), Some loaded_chunk)] \<rparr>"
  have om: "project_to_omt (2468, 1, 0) = (1234, 0, 0)"
    by (simp add: project_to_omt_def)
  have dir: "''save/maps/38.0.0'' = world_base_save_path legacy_env @ ''/maps/''
      @ format_d (1234 div 32) @ ''.'' @ format_d (0 div 32) @ ''.'' @ format_d 0"
    by (simp add: legacy_env_def example_env_def)
  have can: "''save/maps/38.0.0/1234.0.0.map''
      = ''save/maps/38.0.0'' @ ''/'' @ format_d 1234 @ ''.'' @ format_d 0 @ ''.'' @ format_d 0 @ ''.map''"
    by simp
  have leg: "''save/maps/38.0.0/1,234.0.0.map''
      = ''save/maps/38.0.0'' @ ''/'' @ locale_format legacy_env 1234 @ ''.''
          @ locale_format legacy_env 0 @ ''.'' @ locale_format legacy_env 0 @ ''.map''"
    by (simp add: legacy_env_def example_env_def)
  have h: "\<not> fs_exists legacy_world ''save/maps/38.0.0/1234.0.0.map''
           \<and> files legacy_world ''save/maps/38.0.0/1,234.0.0.map'' = Some ?jsin"
    by (simp add: fs_exists_def legacy_world_def)
  have d: "deserialize_value ?jsin legacy_world = (None, ?st1)"
    by (simp add: legacy_world_def deserialize_value_def
      deserialize_submap_def read_version_eq read_coordinates_def next_int_def load_def
      add_submap_def count_def assign_def loaded_chunk_def new_submap_def)
  have g: "generate_uniform_omt legacy_env q oid s = s" for s q oid
    by (rule generate_uniform_omt_none) (simp add: legacy_env_def example_env_def)
  show ?thesis
    using h d legacy_fallback [OF om dir can leg, of legacy_world ?jsin]
    by (simp add: g)
qed

text \<open>What a task started by \<open>save\<close> has captured.\<close>

lemma start_tasks_fields:
  "t \<in> set (start_tasks e das elems saved) \<Longrightarrow>
   task_dirname t = find_dirname e (task_om_addr t)
   \<and> task_quad_path t = find_quad_path (find_dirname e (task_om_addr t)) (task_om_addr t)
   \<and> task_delete_after_save t = das
   \<and> task_inside_reality_bubble t = inbounds e (task_om_addr t)
   \<and> task_om_addr t \<in> project_to_omt ` set elems"
proof (induction elems arbitrary: saved)
  case Nil
  then show ?case by simp
next
  case (Cons elem elems)
  show ?case
  proof (cases "project_to_omt elem \<in> set saved")
    case True
    with Cons.prems have "t \<in> set (start_tasks e das elems saved)" by simp
    from Cons.IH [OF this] show ?thesis by simp
  next
    case False
    with Cons.prems consider
      "t = \<lparr> task_dirname = find_dirname e (project_to_omt elem),
             task_quad_path = find_quad_path (find_dirname e (project_to_omt elem)) (project_to_omt elem),
             task_om_addr = project_to_omt elem, task_delete_after_save = das,
             task_inside_reality_bubble = inbounds e (project_to_omt elem) \<rparr>"
      | "t \<in> set (start_tasks e das elems (project_to_omt elem # saved))"
      by (auto simp: Let_def)
    then show ?thesis
    proof cases
      case 1
      then show ?thesis by simp
    next
      case 2
      from Cons.IH [OF this] show ?thesis by simp
    qed
  qed
qed

text \<open>Every quad with a key in the cache gets a task, unless it was seen before.\<close>

lemma start_tasks_cover:
  "elem \<in> set elems \<Longrightarrow>
   project_to_omt elem \<in> set saved \<union> task_om_addr ` set (start_tasks e das elems saved)"
proof (induction elems arbitrary: saved)
  case Nil
  then show ?case by simp
next
  case (Cons x elems)
  show ?case
  proof (cases "elem = x")
    case True
    then show ?thesis by (simp add: Let_def)
  next
    case False
    with Cons.prems have m: "elem \<in> set elems" by simp
    show ?thesis
    proof (cases "project_to_omt x \<in> set saved")
      case True
      then show ?thesis using Cons.IH [OF m, of saved] by simp
    next
      case False
      then show ?thesis using Cons.IH [OF m, of "project_to_omt x # saved"]
        by (auto simp: Let_def)
    qed
  qed
qed

text \<open>
  C5. \<open>save\<close> runs the tasks that \<open>start_tasks\<close> builds from the keys of the cache. Each
  of them calls \<open>save_quad\<close> on its quad with the flag
  \<open>delete_after_save \<or> \<not> inbounds om_addr\<close>: the caller's flag or the quad being outside
  the reality bubble. For a quad outside the bubble the flag is true whatever the caller
  passed.
\<close>

theorem inactive_quad_forces_deletion:
  assumes "t \<in> set (start_tasks e delete_after_save (map fst (submaps st0)) [])"
  shows "run_task e t (submaps_to_delete, st) =
      (case save_quad e (find_dirname e (task_om_addr t))
              (find_quad_path (find_dirname e (task_om_addr t)) (task_om_addr t))
              (task_om_addr t) [] (delete_after_save \<or> \<not> inbounds e (task_om_addr t)) st of
         (local_submaps_to_delete, st') \<Rightarrow> (submaps_to_delete @ local_submaps_to_delete, st'))
     \<and> (\<not> inbounds e (task_om_addr t) \<longrightarrow>
          run_task e t (submaps_to_delete, st) =
            (case save_quad e (find_dirname e (task_om_addr t))
                    (find_quad_path (find_dirname e (task_om_addr t)) (task_om_addr t))
                    (task_om_addr t) [] True st of
               (local_submaps_to_delete, st') \<Rightarrow> (submaps_to_delete @ local_submaps_to_delete, st')))"
  using start_tasks_fields [OF assms] by (simp add: run_task_def)

text \<open>Saved without the deletion flag, the quad outside the bubble is saved with it.\<close>

theorem inactive_quad_forces_deletion_witness:
  "outside_task \<in> set (start_tasks bubble_env False (map fst (submaps two_quads_world)) [])
   \<and> \<not> inbounds bubble_env (task_om_addr outside_task)
   \<and> run_task bubble_env outside_task ([], two_quads_world) =
        (case save_quad bubble_env (find_dirname bubble_env (2, 2, 0))
                (find_quad_path (find_dirname bubble_env (2, 2, 0)) (2, 2, 0))
                (2, 2, 0) [] True two_quads_world of
           (local_submaps_to_delete, st') \<Rightarrow> ([] @ local_submaps_to_delete, st'))"
proof -
  have h: "outside_task \<in> set (start_tasks bubble_env False (map fst (submaps two_quads_world)) [])"
    by (simp add: two_quads_world_def project_to_omt_def Let_def outside_task_def bubble_env_def)
  have o: "\<not> inbounds bubble_env (task_om_addr outside_task)"
    by (simp add: outside_task_def bubble_env_def)
  have a: "task_om_addr outside_task = (2, 2, 0)"
    by (simp add: outside_task_def)
  show ?thesis
    using h o inactive_quad_forces_deletion [OF h, of "[]" two_quads_world]
    by (simp add: a)
qed



























end
